theory Spec2Isabelle
  imports Main "HOL-Library.Multiset"
begin

section \<open>Python string primitives used by the questionnaire\<close>

text \<open>
  A Python \<open>str\<close> is modelled as a \<open>string\<close>. The characters are read as ASCII: the
  whitespace of \<open>str.strip()\<close> is the ASCII part of Python's whitespace (code points 9 to 13
  and 28 to 32), \<open>str.upper()\<close> maps \<open>a\<close>..\<open>z\<close>, and digits are \<open>0\<close>..\<open>9\<close>. Characters
  outside ASCII are carried along unchanged.
\<close>

definition isspace :: "char \<Rightarrow> bool" where
  "isspace c = (let n = (of_char c :: nat) in (9 \<le> n \<and> n \<le> 13) \<or> (28 \<le> n \<and> n \<le> 32))"

definition strip :: "string \<Rightarrow> string" where
  "strip s = rev (dropWhile isspace (rev (dropWhile isspace s)))"

definition upper_char :: "char \<Rightarrow> char" where
  "upper_char c =
     (case map_of (zip ''abcdefghijklmnopqrstuvwxyz'' ''ABCDEFGHIJKLMNOPQRSTUVWXYZ'') c of
        None \<Rightarrow> c
      | Some u \<Rightarrow> u)"

definition upper :: "string \<Rightarrow> string" where
  "upper s = map upper_char s"

definition is_digit_char :: "char \<Rightarrow> bool" where
  "is_digit_char c = (let n = (of_char c :: nat) in 48 \<le> n \<and> n \<le> 57)"

text \<open>\<open>str.isdigit()\<close>: a non-empty string of digits.\<close>

definition isdigit :: "string \<Rightarrow> bool" where
  "isdigit s = (s \<noteq> [] \<and> list_all is_digit_char s)"

text \<open>
  \<open>s.split(sep, maxsplit)\<close> for a non-empty separator: \<open>split_first\<close> finds the leftmost
  occurrence of the separator, \<open>split\<close> cuts at most \<open>maxsplit\<close> times.
  \<open>contains sub s\<close> is \<open>sub in s\<close>.
\<close>

fun split_first :: "string \<Rightarrow> string \<Rightarrow> (string \<times> string) option" where
  "split_first sep [] = None"
| "split_first sep (c # cs) =
     (if take (length sep) (c # cs) = sep then Some ([], drop (length sep) (c # cs))
      else (case split_first sep cs of
              None \<Rightarrow> None
            | Some (a, b) \<Rightarrow> Some (c # a, b)))"

fun split :: "string \<Rightarrow> nat \<Rightarrow> string \<Rightarrow> string list" where
  "split sep 0 s = [s]"
| "split sep (Suc n) s =
     (case split_first sep s of
        None \<Rightarrow> [s]
      | Some (a, b) \<Rightarrow> a # split sep n b)"

definition contains :: "string \<Rightarrow> string \<Rightarrow> bool" where
  "contains sub s = (split_first sub s \<noteq> None)"

subsection \<open>\<open>int(s)\<close> and \<open>str(i)\<close>\<close>

text \<open>
  \<open>int(s)\<close> in base 10: blanks around the literal are dropped (for an ASCII string these are
  the code points 9 to 13 and 32 only, fewer than \<open>strip\<close> removes), then an optional sign,
  then decimal digits in groups separated by single underscores. Anything else raises
  \<open>ValueError\<close>, which is \<open>None\<close> here. The limit that recent interpreters put on the number
  of digits is not modelled.
\<close>

definition int_space :: "char \<Rightarrow> bool" where
  "int_space c = (let n = (of_char c :: nat) in (9 \<le> n \<and> n \<le> 13) \<or> n = 32)"

definition digit_val :: "char \<Rightarrow> int" where
  "digit_val c = int (of_char c) - 48"

fun valid_digits :: "string \<Rightarrow> bool" where
  "valid_digits [] = False"
| "valid_digits [c] = is_digit_char c"
| "valid_digits (c # d # ds) =
     (is_digit_char c \<and>
      (if d = CHR ''_'' then valid_digits ds else valid_digits (d # ds)))"

definition digits_value :: "string \<Rightarrow> int" where
  "digits_value s = foldl (\<lambda>acc c. acc * 10 + digit_val c) 0 (filter (\<lambda>c. c \<noteq> CHR ''_'') s)"

definition parse_digits :: "string \<Rightarrow> int option" where
  "parse_digits s = (if valid_digits s then Some (digits_value s) else None)"

definition py_int :: "string \<Rightarrow> int option" where
  "py_int s =
     (let t = rev (dropWhile int_space (rev (dropWhile int_space s))) in
      case t of
        [] \<Rightarrow> None
      | c # r \<Rightarrow>
          if c = CHR ''+'' then parse_digits r
          else if c = CHR ''-'' then map_option uminus (parse_digits r)
          else parse_digits t)"

function str_nat :: "nat \<Rightarrow> string" where
  "str_nat n =
     (if n < 10 then [''0123456789'' ! n]
      else str_nat (n div 10) @ [''0123456789'' ! (n mod 10)])"
  by pat_completeness auto
termination
  by (relation "measure id") auto

declare str_nat.simps [simp del]

definition str_int :: "int \<Rightarrow> string" where
  "str_int i = (if i < 0 then CHR ''-'' # str_nat (nat (- i)) else str_nat (nat i))"

section \<open>Files, terminal and session state\<close>

text \<open>
  A text file is its content after newline translation on reading: \<open>universal_newlines\<close>
  turns \<open>\r\n\<close> and a lone \<open>\r\<close> into \<open>\n\<close>, as a file opened in text mode does, and
  \<open>readlines\<close> cuts the text after every \<open>\n\<close> (the lines keep their terminator; a last line
  without one is kept as it is). A path is absent from the file system, or names a file whose
  opening or decoding raises (\<open>Broken\<close>), or names a file with a content.
\<close>

fun universal_newlines :: "string \<Rightarrow> string" where
  "universal_newlines [] = []"
| "universal_newlines [c] = (if c = CHR 0x0D then [CHR 0x0A] else [c])"
| "universal_newlines (c # d # ds) =
     (if c = CHR 0x0D \<and> d = CHR 0x0A then CHR 0x0A # universal_newlines ds
      else if c = CHR 0x0D then CHR 0x0A # universal_newlines (d # ds)
      else c # universal_newlines (d # ds))"

fun lines_from :: "string \<Rightarrow> string \<Rightarrow> string list" where
  "lines_from acc [] = (if acc = [] then [] else [acc])"
| "lines_from acc (c # cs) =
     (if c = CHR 0x0A then (acc @ [c]) # lines_from [] cs else lines_from (acc @ [c]) cs)"

definition readlines :: "string \<Rightarrow> string list" where
  "readlines text = lines_from [] (universal_newlines text)"

datatype file_state = Broken | Content string

text \<open>
  One call of \<open>input()\<close> yields a line (without its newline), or is interrupted from the
  keyboard, or raises another exception (end of input, a decoding error). The terminal is the
  list of the events still to come; when it is empty the program waits in \<open>input()\<close>.
  Each \<open>print\<close> of the modelled functions is one \<open>message\<close>, carrying what the text
  interpolates; decorative lines are left out, and the lines printed for one question are one
  message.
\<close>

datatype event = Line string | KeyboardInterrupt | InputError

datatype message =
    QuestionsNotFound string
  | LoadedQuestions nat
  | ErrorLoading
  | ReadWarning
  | ErrorSaving
  | NoQuestionsLoaded
  | ResumingSession int int
  | StartingNewSession nat
  | Instructions string
  | PressEnter
  | QuestionnaireCompleted nat string
  | QuestionHeader int nat string
  | YourAnswer
  | SessionSaved int
  | ProvideAnswer
  | AnswerSaved
  | SessionInterrupted int
  | ErrorTryAgain

record world =
  files :: "string \<rightharpoonup> file_state"
  stdin :: "event list"
  stdout :: "message list"

record manager =
  current_language :: "string option"
  questions :: "string list"
  answers_file_path :: "string option"
  questions_file_path :: "string option"

datatype exn = IndexError | TypeError | KeyboardInterruptRaised | OtherException

text \<open>
  A call returns a value, raises, or never returns because it waits for input that does not
  come (\<open>Blocks\<close>).
\<close>

datatype 'a outcome = Returns 'a | Raises exn | Blocks

definition init_manager :: manager where
  "init_manager =
     \<lparr>current_language = None, questions = [], answers_file_path = None,
      questions_file_path = None\<rparr>"

definition print :: "message \<Rightarrow> world \<Rightarrow> world" where
  "print msg w = w\<lparr>stdout := stdout w @ [msg]\<rparr>"

text \<open>\<open>input(prompt)\<close>: the prompt is printed, then the next event of the terminal is taken.\<close>

definition input :: "message \<Rightarrow> world \<Rightarrow> event option \<times> world" where
  "input prompt w =
     (case stdin w of
        [] \<Rightarrow> (None, print prompt w)
      | e # es \<Rightarrow> (Some e, (print prompt w)\<lparr>stdin := es\<rparr>))"

text \<open>How an f-string renders a field that may be \<open>None\<close>.\<close>

definition fmt_opt :: "string option \<Rightarrow> string" where
  "fmt_opt x = (case x of None \<Rightarrow> ''None'' | Some s \<Rightarrow> s)"

text \<open>\<open>xs[i]\<close>: a negative index counts from the end, an index out of range raises.\<close>

definition py_index :: "'a list \<Rightarrow> int \<Rightarrow> 'a option" where
  "py_index xs i =
     (let n = int (length xs); j = (if i < 0 then n + i else i) in
      if 0 \<le> j \<and> j < n then Some (xs ! nat j) else None)"

text \<open>\<open>range(a, b)\<close>.\<close>

definition py_range :: "int \<Rightarrow> int \<Rightarrow> int list" where
  "py_range a b = [a..b - 1]"

section \<open>The questionnaire manager\<close>

subsection \<open>\<open>load_questions\<close>\<close>



subsection \<open>\<open>get_last_answered_question\<close>\<close>

text \<open>
  One round of the loop over the lines of the answers file: \<open>last_id_step last_id line\<close> is
  the value of \<open>last_id\<close> after the round.
\<close>

definition last_id_step :: "int \<Rightarrow> string \<Rightarrow> int" where
  "last_id_step last_id raw =
     (let line = strip raw in
      if line \<noteq> [] \<and> contains '';'' line then
        (let parts = split '';'' 2 line in
         if length parts \<ge> 3 then
           (case py_int (parts ! 0) of
              None \<Rightarrow> last_id
            | Some question_id \<Rightarrow> max last_id question_id)
         else last_id)
      else last_id)"

definition last_id_of_lines :: "string list \<Rightarrow> int" where
  "last_id_of_lines ls = foldl last_id_step 0 ls"

definition get_last_answered_question :: "manager \<Rightarrow> world \<Rightarrow> int outcome \<times> world" where
  "get_last_answered_question m w =
     (case answers_file_path m of
        None \<Rightarrow> (Raises TypeError, w)
      | Some path \<Rightarrow>
          (case files w path of
             None \<Rightarrow> (Returns 0, w)
           | Some Broken \<Rightarrow> (Returns 0, print ReadWarning w)
           | Some (Content text) \<Rightarrow> (Returns (last_id_of_lines (readlines text)), w)))"

subsection \<open>\<open>save_answer\<close>\<close>

definition record_line :: "int \<Rightarrow> string \<Rightarrow> string \<Rightarrow> string" where
  "record_line question_id question answer =
     str_int question_id @ '';'' @ question @ '';'' @ answer @ [CHR 0x0A]"

text \<open>
  Opening in append mode creates the file when the path is absent; every failure is caught
  and reported, and the file is then left as it was.
\<close>

definition save_answer :: "manager \<Rightarrow> int \<Rightarrow> string \<Rightarrow> string \<Rightarrow> world \<Rightarrow> world" where
  "save_answer m question_id question answer w =
     (case answers_file_path m of
        None \<Rightarrow> print ErrorSaving w
      | Some path \<Rightarrow>
          (case files w path of
             None \<Rightarrow>
               w\<lparr>files := (files w)(path \<mapsto> Content (record_line question_id question answer))\<rparr>
           | Some Broken \<Rightarrow> print ErrorSaving w
           | Some (Content text) \<Rightarrow>
               w\<lparr>files :=
                   (files w)(path \<mapsto> Content (text @ record_line question_id question answer))\<rparr>))"

subsection \<open>\<open>ask_question\<close>\<close>

text \<open>The text shown for a question: a leading number and \<open>. \<close> are removed.\<close>

definition display_text :: "string \<Rightarrow> string" where
  "display_text question_text =
     (if contains ''. '' question_text \<and> isdigit (split ''. '' 1 question_text ! 0)
      then split ''. '' 1 question_text ! 1
      else question_text)"

text \<open>
  The \<open>while True\<close> loop of \<open>ask_question\<close>. Every round reads one event, so the loop ends
  when the terminal has no more events, at the latest.
\<close>

function answer_loop :: "manager \<Rightarrow> int \<Rightarrow> string \<Rightarrow> world \<Rightarrow> bool outcome \<times> world" where
  "answer_loop m question_id question w =
     (case input YourAnswer w of
        (None, w1) \<Rightarrow> (Blocks, w1)
      | (Some KeyboardInterrupt, w1) \<Rightarrow>
          (Returns False, print (SessionInterrupted (question_id + 1)) w1)
      | (Some InputError, w1) \<Rightarrow> answer_loop m question_id question (print ErrorTryAgain w1)
      | (Some (Line raw), w1) \<Rightarrow>
          (let answer = strip raw in
           if upper answer = ''QUIT'' then
             (Returns False, print (SessionSaved (question_id + 1)) w1)
           else if upper answer = ''SKIP'' then
             (Returns True,
              print AnswerSaved (save_answer m question_id question ''[SKIPPED]'' w1))
           else if answer = [] then
             answer_loop m question_id question (print ProvideAnswer w1)
           else
             (Returns True, print AnswerSaved (save_answer m question_id question answer w1))))"
  by pat_completeness auto
termination
  by (relation "measure (\<lambda>(m, question_id, question, w). length (stdin w))")
     (auto simp: input_def print_def split: list.splits)

declare answer_loop.simps [simp del]

definition ask_question :: "manager \<Rightarrow> int \<Rightarrow> world \<Rightarrow> bool outcome \<times> world" where
  "ask_question m question_index w =
     (case py_index (questions m) question_index of
        None \<Rightarrow> (Raises IndexError, w)
      | Some question \<Rightarrow>
          answer_loop m question_index question
            (print (QuestionHeader (question_index + 1) (length (questions m))
                      (display_text question)) w))"

subsection \<open>\<open>start_questionnaire_session\<close>\<close>

text \<open>
  The \<open>for\<close> loop over the question indices; the result tells whether the loop ran to its
  end or was left by \<open>break\<close>.
\<close>

datatype loop_exit = Exhausted | Break

fun ask_all :: "manager \<Rightarrow> int list \<Rightarrow> world \<Rightarrow> loop_exit outcome \<times> world" where
  "ask_all m [] w = (Returns Exhausted, w)"
| "ask_all m (i # rest) w =
     (case ask_question m i w of
        (Returns True, w1) \<Rightarrow> ask_all m rest w1
      | (Returns False, w1) \<Rightarrow> (Returns Break, w1)
      | (Raises e, w1) \<Rightarrow> (Raises e, w1)
      | (Blocks, w1) \<Rightarrow> (Blocks, w1))"

definition start_questionnaire_session :: "manager \<Rightarrow> world \<Rightarrow> unit outcome \<times> manager \<times> world" where
  "start_questionnaire_session m w =
     (if questions m = [] then (Returns (), m, print NoQuestionsLoaded w)
      else
        (let path = ''600A_'' @ fmt_opt (current_language m) @ ''.txt'';
             m1 = m\<lparr>answers_file_path := Some path\<rparr> in
         case get_last_answered_question m1 w of
           (Raises e, w1) \<Rightarrow> (Raises e, m1, w1)
         | (Blocks, w1) \<Rightarrow> (Blocks, m1, w1)
         | (Returns last_answered, w1) \<Rightarrow>
             (let start_question = last_answered;
                  w2 = print (if last_answered > 0
                              then ResumingSession last_answered (last_answered + 1)
                              else StartingNewSession (length (questions m1))) w1;
                  w3 = print (Instructions path) w2 in
              case input PressEnter w3 of
                (None, w4) \<Rightarrow> (Blocks, m1, w4)
              | (Some KeyboardInterrupt, w4) \<Rightarrow> (Raises KeyboardInterruptRaised, m1, w4)
              | (Some InputError, w4) \<Rightarrow> (Raises OtherException, m1, w4)
              | (Some (Line l), w4) \<Rightarrow>
                  (case ask_all m1 (py_range start_question (int (length (questions m1)))) w4 of
                     (Returns ex, w5) \<Rightarrow>
                       (Returns (), m1,
                        if start_question < int (length (questions m1))
                        then print (QuestionnaireCompleted (length (questions m1)) path) w5
                        else w5)
                   | (Raises e, w5) \<Rightarrow> (Raises e, m1, w5)
                   | (Blocks, w5) \<Rightarrow> (Blocks, m1, w5)))))"

section \<open>Notions used to state the properties\<close>

text \<open>
  The first field of a log line is what stands before its first separator, once the line is
  trimmed. A line is a record when, trimmed, it holds at least two separators and its first
  field reads as an integer; \<open>record_index\<close> is then that integer.
\<close>

definition first_field :: "string \<Rightarrow> string" where
  "first_field raw = takeWhile (\<lambda>c. c \<noteq> CHR '';'') (strip raw)"

definition record_index :: "string \<Rightarrow> int option" where
  "record_index raw =
     (if 2 \<le> count_list (strip raw) (CHR '';'') then py_int (first_field raw) else None)"



text \<open>A line is blank when it is empty or made of whitespace only.\<close>

definition blank :: "string \<Rightarrow> bool" where
  "blank s = list_all isspace s"

text \<open>
  The questions asked during a run are read off what was printed: every call of
  \<open>ask_question\<close> that finds its question prints one header, numbered from 1.
\<close>

fun header_index :: "message \<Rightarrow> int option" where
  "header_index (QuestionHeader k n shown) = Some (k - 1)"
| "header_index other = None"

definition asked :: "message list \<Rightarrow> int list" where
  "asked out = List.map_filter header_index out"



section \<open>Facts about the string primitives\<close>

lemmas string_defs =
  strip_def isspace_def upper_def upper_char_def contains_def is_digit_char_def isdigit_def
  py_int_def int_space_def parse_digits_def digits_value_def digit_val_def first_field_def

lemma split_first_char_None: "split_first [c] s = None \<longleftrightarrow> c \<notin> set s"
  by (induction s) (auto split: option.splits)

lemma split_first_char_Some:
  "c \<in> set s \<Longrightarrow> split_first [c] s = Some (takeWhile (\<lambda>x. x \<noteq> c) s, tl (dropWhile (\<lambda>x. x \<noteq> c) s))"
  by (induction s) (auto split: option.splits)

lemma contains_char: "contains [c] s \<longleftrightarrow> c \<in> set s"
  by (simp add: contains_def split_first_char_None)

lemma count_tl_dropWhile:
  "c \<in> set s \<Longrightarrow> count_list (tl (dropWhile (\<lambda>x. x \<noteq> c) s)) c = count_list s c - 1"
  by (induction s) auto

lemma count_list_pos: "c \<in> set s \<longleftrightarrow> 0 < count_list s c"
  by (induction s) auto

lemma split_two_length:
  "3 \<le> length (split [c] 2 s) \<longleftrightarrow> 2 \<le> count_list s c"
proof (cases "c \<in> set s")
  case False
  then show ?thesis
    using count_list_pos [of c s] by (simp add: numeral_2_eq_2 split_first_char_None [THEN iffD2])
next
  case True
  let ?b = "tl (dropWhile (\<lambda>x. x \<noteq> c) s)"
  show ?thesis
  proof (cases "c \<in> set ?b")
    case inner: True
    then have "0 < count_list ?b c" by (simp add: count_list_pos)
    then have "2 \<le> count_list s c" using count_tl_dropWhile [OF True] by simp
    then show ?thesis using True inner
      by (simp add: numeral_2_eq_2 split_first_char_Some)
  next
    case inner: False
    then have "count_list ?b c = 0" by (simp add: count_list_pos)
    then have "count_list s c < 2" using count_tl_dropWhile [OF True] by simp
    then show ?thesis using True inner
      by (simp add: numeral_2_eq_2 split_first_char_Some split_first_char_None [THEN iffD2])
  qed
qed

lemma split_two_hd:
  "c \<in> set s \<Longrightarrow> split [c] 2 s ! 0 = takeWhile (\<lambda>x. x \<noteq> c) s"
  by (simp add: numeral_2_eq_2 split_first_char_Some)













section \<open>The resume offset\<close>

lemma last_id_step_record_index:
  "last_id_step acc raw = (case record_index raw of None \<Rightarrow> acc | Some i \<Rightarrow> max acc i)"
proof (cases "2 \<le> count_list (strip raw) (CHR '';'')")
  case True
  then have mem: "CHR '';'' \<in> set (strip raw)"
    using count_list_pos [of "CHR '';''" "strip raw"] by simp
  then have "strip raw \<noteq> []" by auto
  with True mem show ?thesis
    using split_two_length [of "CHR '';''" "strip raw"] split_two_hd [OF mem]
    by (simp add: last_id_step_def record_index_def first_field_def contains_char Let_def)
next
  case False
  then show ?thesis
    using split_two_length [of "CHR '';''" "strip raw"]
    by (simp add: last_id_step_def record_index_def Let_def)
qed

lemma foldl_last_id_step:
  "foldl last_id_step acc ls = Max (insert acc (set (List.map_filter record_index ls)))"
proof (induction ls arbitrary: acc)
  case Nil
  show ?case by (simp add: List.map_filter_simps)
next
  case (Cons l ls)
  have unfold: "foldl last_id_step acc (l # ls)
                = Max (insert (last_id_step acc l) (set (List.map_filter record_index ls)))"
    using Cons.IH [of "last_id_step acc l"] by simp
  show ?case
  proof (cases "record_index l")
    case None
    then have "last_id_step acc l = acc" by (simp add: last_id_step_record_index)
    with None unfold show ?thesis by (simp add: List.map_filter_simps)
  next
    case (Some i)
    then have step: "last_id_step acc l = max acc i" by (simp add: last_id_step_record_index)
    have "Max (insert (max acc i) (set (List.map_filter record_index ls)))
          = Max (insert acc (insert i (set (List.map_filter record_index ls))))"
      by (cases "set (List.map_filter record_index ls) = {}") (simp_all add: max.assoc)
    with Some unfold step show ?thesis by (simp add: List.map_filter_simps)
  qed
qed






section \<open>Loading the questions\<close>

lemma strip_empty_iff: "strip s = [] \<longleftrightarrow> blank s"
proof
  assume "strip s = []"
  then have all: "\<forall>x\<in>set (dropWhile isspace s). isspace x"
    by (simp add: strip_def dropWhile_eq_Nil_conv)
  have "dropWhile isspace s = []"
  proof (rule ccontr)
    assume ne: "dropWhile isspace s \<noteq> []"
    then have "\<not> isspace (hd (dropWhile isspace s))" using hd_dropWhile by blast
    moreover have "hd (dropWhile isspace s) \<in> set (dropWhile isspace s)" using ne by simp
    ultimately show False using all by blast
  qed
  then show "blank s" by (simp add: blank_def dropWhile_eq_Nil_conv list_all_iff)
next
  assume "blank s"
  then have "dropWhile isspace s = []"
    by (simp add: blank_def list_all_iff)
  then show "strip s = []" by (simp add: strip_def del: dropWhile_eq_Nil_conv)
qed










section \<open>Asking one question\<close>

lemma answer_loop_no_input:
  "stdin w = [] \<Longrightarrow> answer_loop m i q w = (Blocks, print YourAnswer w)"
  by (subst answer_loop.simps) (simp add: input_def)

lemma answer_loop_interrupt:
  "stdin w = KeyboardInterrupt # es \<Longrightarrow>
   answer_loop m i q w
   = (Returns False, print (SessionInterrupted (i + 1)) ((print YourAnswer w)\<lparr>stdin := es\<rparr>))"
  by (subst answer_loop.simps) (simp add: input_def)

lemma answer_loop_input_error:
  "stdin w = InputError # es \<Longrightarrow>
   answer_loop m i q w
   = answer_loop m i q (print ErrorTryAgain ((print YourAnswer w)\<lparr>stdin := es\<rparr>))"
  by (subst answer_loop.simps) (simp add: input_def)

lemma answer_loop_line:
  "stdin w = Line raw # es \<Longrightarrow>
   answer_loop m i q w
   = (let w1 = (print YourAnswer w)\<lparr>stdin := es\<rparr>; answer = strip raw in
      if upper answer = ''QUIT'' then (Returns False, print (SessionSaved (i + 1)) w1)
      else if upper answer = ''SKIP'' then
        (Returns True, print AnswerSaved (save_answer m i q ''[SKIPPED]'' w1))
      else if answer = [] then answer_loop m i q (print ProvideAnswer w1)
      else (Returns True, print AnswerSaved (save_answer m i q answer w1)))"
  by (subst answer_loop.simps) (simp add: input_def Let_def)

lemma print_fields [simp]:
  "files (print msg w) = files w" "stdin (print msg w) = stdin w"
  "stdout (print msg w) = stdout w @ [msg]"
  by (simp_all add: print_def)

lemma answer_loop_never_raises: "fst (answer_loop m i q w) \<noteq> Raises e"
proof (induction "length (stdin w)" arbitrary: w)
  case 0
  then show ?case by (simp add: answer_loop_no_input)
next
  case (Suc n)
  then obtain ev es where s: "stdin w = ev # es" by (cases "stdin w") auto
  with Suc have n: "n = length es" by simp
  show ?case
  proof (cases ev)
    case (Line raw)
    have "fst (answer_loop m i q (print ProvideAnswer ((print YourAnswer w)\<lparr>stdin := es\<rparr>)))
          \<noteq> Raises e"
      by (rule Suc.hyps(1)) (simp add: n)
    then show ?thesis using s Line by (simp add: answer_loop_line Let_def)
  next
    case KeyboardInterrupt
    then show ?thesis using s by (simp add: answer_loop_interrupt)
  next
    case InputError
    have "fst (answer_loop m i q (print ErrorTryAgain ((print YourAnswer w)\<lparr>stdin := es\<rparr>)))
          \<noteq> Raises e"
      by (rule Suc.hyps(1)) (simp add: n)
    then show ?thesis using s InputError by (simp add: answer_loop_input_error)
  qed
qed


text \<open>
  Claim C9. When the line typed is empty or blank, \<open>ask_question\<close> prints its notice and goes
  round its loop again for the same question, with the rest of the input: nothing is written
  to any file, the question index does not change, and no exception is raised.
\<close>

theorem C9_empty_input_reprompts:
  assumes "py_index (questions m) i = Some q"
    and "stdin w = Line raw # es"
    and "blank raw"
  shows "ask_question m i w
         = answer_loop m i q
             ((print ProvideAnswer
                 (print YourAnswer
                    (print (QuestionHeader (i + 1) (length (questions m)) (display_text q)) w)))
              \<lparr>stdin := es\<rparr>)
         \<and> files ((print ProvideAnswer
                 (print YourAnswer
                    (print (QuestionHeader (i + 1) (length (questions m)) (display_text q)) w)))
              \<lparr>stdin := es\<rparr>) = files w
         \<and> (\<forall>e. fst (ask_question m i w) \<noteq> Raises e)"
proof -
  let ?h = "print (QuestionHeader (i + 1) (length (questions m)) (display_text q)) w"
  have s: "stdin ?h = Line raw # es" using assms(2) by simp
  have e: "strip raw = []" using assms(3) by (simp add: strip_empty_iff)
  have "answer_loop m i q ?h
        = answer_loop m i q (print ProvideAnswer ((print YourAnswer ?h)\<lparr>stdin := es\<rparr>))"
    using answer_loop_line [OF s] by (simp add: e upper_def Let_def)
  moreover have "print ProvideAnswer ((print YourAnswer ?h)\<lparr>stdin := es\<rparr>)
                 = (print ProvideAnswer (print YourAnswer ?h))\<lparr>stdin := es\<rparr>"
    by (simp add: print_def)
  ultimately show ?thesis
    using assms(1) answer_loop_never_raises by (simp add: ask_question_def)
qed


theorem C9_empty_input_witness:
  "fst (ask_question
          (init_manager\<lparr>questions := [''1. A?'', ''2. B?''],
                         answers_file_path := Some ''600A_ingles.txt''\<rparr>) 0
          \<lparr>files = Map.empty, stdin = [Line ''  ''], stdout = []\<rparr>) = Blocks
   \<and> stdout (snd (ask_question
          (init_manager\<lparr>questions := [''1. A?'', ''2. B?''],
                         answers_file_path := Some ''600A_ingles.txt''\<rparr>) 0
          \<lparr>files = Map.empty, stdin = [Line ''  ''], stdout = []\<rparr>))
     = [QuestionHeader 1 2 ''A?'', YourAnswer, ProvideAnswer, YourAnswer]
   \<and> files (snd (ask_question
          (init_manager\<lparr>questions := [''1. A?'', ''2. B?''],
                         answers_file_path := Some ''600A_ingles.txt''\<rparr>) 0
          \<lparr>files = Map.empty, stdin = [Line ''  ''], stdout = []\<rparr>)) ''600A_ingles.txt'' = None"
proof -
  let ?m = "init_manager\<lparr>questions := [''1. A?'', ''2. B?''],
                         answers_file_path := Some ''600A_ingles.txt''\<rparr>"
  let ?w = "\<lparr>files = Map.empty, stdin = [Line ''  ''], stdout = []\<rparr>"
  have a: "py_index (questions ?m) 0 = Some ''1. A?''" by (simp add: py_index_def)
  have b: "stdin ?w = Line ''  '' # []" by simp
  have c: "blank ''  ''" by (simp add: blank_def isspace_def)
  have d: "display_text ''1. A?'' = ''A?''"
    by (simp add: display_text_def string_defs)
  show ?thesis
    using C9_empty_input_reprompts [OF a b c]
    by (simp add: answer_loop_no_input d print_def)
qed





section \<open>Running a session\<close>

lemma asked_append: "asked (xs @ ys) = asked xs @ asked ys"
  by (simp add: asked_def List.map_filter_def)

lemma asked_Nil: "asked [] = []"
  by (simp add: asked_def List.map_filter_simps)

lemma asked_Cons:
  "asked (msg # out) = (case header_index msg of None \<Rightarrow> asked out | Some i \<Rightarrow> i # asked out)"
  by (cases "header_index msg") (simp_all add: asked_def List.map_filter_simps)

lemmas asked_single = asked_Nil asked_Cons

lemma asked_save_answer: "asked (stdout (save_answer m i q a w)) = asked (stdout w)"
  by (simp add: save_answer_def asked_append asked_single split: option.splits file_state.splits)

lemma asked_answer_loop: "asked (stdout (snd (answer_loop m i q w))) = asked (stdout w)"
proof (induction "length (stdin w)" arbitrary: w)
  case 0
  then show ?case by (simp add: answer_loop_no_input asked_append asked_single)
next
  case (Suc n)
  then obtain ev es where s: "stdin w = ev # es" by (cases "stdin w") auto
  with Suc have n: "n = length es" by simp
  have base: "asked (stdout ((print YourAnswer w)\<lparr>stdin := es\<rparr>)) = asked (stdout w)"
    by (simp add: asked_append asked_single)
  show ?case
  proof (cases ev)
    case (Line raw)
    have "asked (stdout (snd (answer_loop m i q
            (print ProvideAnswer ((print YourAnswer w)\<lparr>stdin := es\<rparr>))))) = asked (stdout w)"
      using Suc.hyps(1) [of "print ProvideAnswer ((print YourAnswer w)\<lparr>stdin := es\<rparr>)"]
      by (simp add: n asked_append asked_single)
    then show ?thesis using s Line
      by (simp add: answer_loop_line Let_def asked_append asked_single asked_save_answer)
  next
    case KeyboardInterrupt
    then show ?thesis using s by (simp add: answer_loop_interrupt asked_append asked_single)
  next
    case InputError
    have "asked (stdout (snd (answer_loop m i q
            (print ErrorTryAgain ((print YourAnswer w)\<lparr>stdin := es\<rparr>))))) = asked (stdout w)"
      using Suc.hyps(1) [of "print ErrorTryAgain ((print YourAnswer w)\<lparr>stdin := es\<rparr>)"]
      by (simp add: n asked_append asked_single)
    then show ?thesis using s InputError by (simp add: answer_loop_input_error)
  qed
qed

lemma py_index_valid:
  "0 \<le> i \<Longrightarrow> i < int (length xs) \<Longrightarrow> py_index xs i = Some (xs ! nat i)"
  by (simp add: py_index_def)

lemma ask_question_valid:
  assumes "0 \<le> i" and "i < int (length (questions m))"
  shows "asked (stdout (snd (ask_question m i w))) = asked (stdout w) @ [i]"
    and "fst (ask_question m i w) \<noteq> Raises e"
  using assms
  by (simp_all add: ask_question_def py_index_valid asked_answer_loop asked_append asked_single
      answer_loop_never_raises)

lemma ask_all_asked:
  assumes "\<forall>i\<in>set idxs. 0 \<le> i \<and> i < int (length (questions m))"
  shows "(\<forall>e. fst (ask_all m idxs w) \<noteq> Raises e)
         \<and> (fst (ask_all m idxs w) = Returns Exhausted \<longrightarrow>
              asked (stdout (snd (ask_all m idxs w))) = asked (stdout w) @ idxs)
         \<and> (fst (ask_all m idxs w) \<noteq> Returns Exhausted \<longrightarrow>
              (\<exists>n<length idxs.
                 asked (stdout (snd (ask_all m idxs w))) = asked (stdout w) @ take (Suc n) idxs))"
  using assms
proof (induction idxs arbitrary: w)
  case Nil
  show ?case by simp
next
  case (Cons i rest)
  obtain r1 w1 where q: "ask_question m i w = (r1, w1)" by (cases "ask_question m i w")
  have i: "0 \<le> i" "i < int (length (questions m))" using Cons.prems by simp_all
  have a1: "asked (stdout w1) = asked (stdout w) @ [i]"
    using ask_question_valid(1) [OF i, of w] q by simp
  have nr: "r1 \<noteq> Raises e" for e using ask_question_valid(2) [OF i, of w e] q by simp
  have ih: "(\<forall>e. fst (ask_all m rest w1) \<noteq> Raises e)
         \<and> (fst (ask_all m rest w1) = Returns Exhausted \<longrightarrow>
              asked (stdout (snd (ask_all m rest w1))) = asked (stdout w1) @ rest)
         \<and> (fst (ask_all m rest w1) \<noteq> Returns Exhausted \<longrightarrow>
              (\<exists>n<length rest.
                 asked (stdout (snd (ask_all m rest w1))) = asked (stdout w1) @ take (Suc n) rest))"
    using Cons.IH [of w1] Cons.prems by simp
  show ?case
  proof (cases r1)
    case (Returns b)
    show ?thesis
    proof (cases b)
      case True
      then have step: "ask_all m (i # rest) w = ask_all m rest w1" using q Returns by simp
      show ?thesis unfolding step using ih a1 by auto
    next
      case False
      then have step: "ask_all m (i # rest) w = (Returns Break, w1)" using q Returns by simp
      show ?thesis unfolding step using a1 by (auto intro: exI [of _ 0])
    qed
  next
    case (Raises e)
    then show ?thesis using nr by simp
  next
    case Blocks
    then have step: "ask_all m (i # rest) w = (Blocks, w1)" using q by simp
    show ?thesis unfolding step using a1 by (auto intro: exI [of _ 0])
  qed
qed

lemma last_id_of_lines_nonneg: "0 \<le> last_id_of_lines ls"
  by (simp add: last_id_of_lines_def foldl_last_id_step)

lemma get_last_answered_question_cases:
  assumes "get_last_answered_question m w = (Returns k, w1)"
  shows "0 \<le> k \<and> asked (stdout w1) = asked (stdout w) \<and> stdin w1 = stdin w \<and> files w1 = files w"
  using assms
  by (auto simp: get_last_answered_question_def last_id_of_lines_nonneg asked_append asked_single
      split: option.splits file_state.splits)

lemma py_range_valid:
  "0 \<le> k \<Longrightarrow> \<forall>i\<in>set (py_range k (int n)). 0 \<le> i \<and> i < int n"
  by (auto simp: py_range_def)

lemma py_range_empty: "b \<le> a \<Longrightarrow> py_range a b = []"
  by (simp add: py_range_def)


lemma session_run:
  assumes "questions m \<noteq> []"
    and "p = ''600A_'' @ fmt_opt (current_language m) @ ''.txt''"
    and "m1 = m\<lparr>answers_file_path := Some p\<rparr>"
    and "get_last_answered_question m1 w = (Returns k, w1)"
    and "stdin w = Line l # es"
    and "w4 = (print PressEnter
                (print (Instructions p)
                   (print (if k > 0 then ResumingSession k (k + 1)
                           else StartingNewSession (length (questions m))) w1)))
              \<lparr>stdin := es\<rparr>"
  shows "start_questionnaire_session m w
         = (case ask_all m1 (py_range k (int (length (questions m)))) w4 of
              (Returns ex, w5) \<Rightarrow>
                (Returns (), m1,
                 if k < int (length (questions m))
                 then print (QuestionnaireCompleted (length (questions m)) p) w5 else w5)
            | (Raises e, w5) \<Rightarrow> (Raises e, m1, w5)
            | (Blocks, w5) \<Rightarrow> (Blocks, m1, w5))"
proof -
  have s1: "stdin w1 = Line l # es"
    using get_last_answered_question_cases [OF assms(4)] assms(5) by simp
  show ?thesis
    using assms(1) assms(4) s1
    unfolding assms(6) assms(3) assms(2)
    by (simp add: start_questionnaire_session_def Let_def input_def print_def
        split: prod.splits outcome.splits)
qed

text \<open>
  Claim C5, as the code has it. Once the user has pressed ENTER, the session calls
  \<open>ask_question\<close> on the indices from the resume offset to the last question, in increasing
  order, and leaves the loop at once when a call returns \<open>False\<close> or waits for input: the
  questions asked are then a non-empty initial part of that range, and all of it when the loop
  runs to its end. No call raises. When the loop runs to its end and the offset is below the
  number of questions, the completion notice is printed; when the offset is not below the
  number of questions, nothing is asked and the session returns without that notice.
\<close>

theorem C5_session_loop_and_completion:
  assumes "questions m \<noteq> []"
    and "p = ''600A_'' @ fmt_opt (current_language m) @ ''.txt''"
    and "m1 = m\<lparr>answers_file_path := Some p\<rparr>"
    and "get_last_answered_question m1 w = (Returns k, w1)"
    and "stdin w = Line l # es"
    and "w4 = (print PressEnter
                (print (Instructions p)
                   (print (if k > 0 then ResumingSession k (k + 1)
                           else StartingNewSession (length (questions m))) w1)))
              \<lparr>stdin := es\<rparr>"
    and "r = ask_all m1 (py_range k (int (length (questions m)))) w4"
  shows "(\<forall>e. fst r \<noteq> Raises e)
       \<and> (fst r = Returns Exhausted \<longrightarrow>
            asked (stdout (snd r)) = asked (stdout w) @ py_range k (int (length (questions m))))
       \<and> (fst r \<noteq> Returns Exhausted \<longrightarrow>
            (\<exists>n<length (py_range k (int (length (questions m)))).
               asked (stdout (snd r))
               = asked (stdout w) @ take (Suc n) (py_range k (int (length (questions m))))))
       \<and> (\<forall>i rest v v'. ask_question m1 i v = (Returns False, v') \<longrightarrow>
            ask_all m1 (i # rest) v = (Returns Break, v'))
       \<and> (fst r = Returns Exhausted \<and> k < int (length (questions m)) \<longrightarrow>
            start_questionnaire_session m w
            = (Returns (), m1, print (QuestionnaireCompleted (length (questions m)) p) (snd r)))
       \<and> (int (length (questions m)) \<le> k \<longrightarrow>
            start_questionnaire_session m w = (Returns (), m1, w4))
       \<and> (fst r = Blocks \<longrightarrow> start_questionnaire_session m w = (Blocks, m1, snd r))"
proof -
  let ?n = "int (length (questions m))"
  have k: "0 \<le> k" and a1: "asked (stdout w1) = asked (stdout w)"
    using get_last_answered_question_cases [OF assms(4)] by simp_all
  have a4: "asked (stdout w4) = asked (stdout w)"
    unfolding assms(6) by (simp add: asked_append asked_single a1)
  have q1: "questions m1 = questions m" unfolding assms(3) by simp
  have valid: "\<forall>i\<in>set (py_range k ?n). 0 \<le> i \<and> i < int (length (questions m1))"
    unfolding q1 using k by (rule py_range_valid)
  note loop = ask_all_asked [OF valid, of w4, folded assms(7), unfolded a4]
  note run = session_run [OF assms(1-6), folded assms(7)]
  have stop: "\<forall>i rest v v'. ask_question m1 i v = (Returns False, v') \<longrightarrow>
            ask_all m1 (i # rest) v = (Returns Break, v')"
    by simp
  have completed: "fst r = Returns Exhausted \<and> k < ?n \<longrightarrow>
            start_questionnaire_session m w
            = (Returns (), m1, print (QuestionnaireCompleted (length (questions m)) p) (snd r))"
    unfolding run by (cases r) auto
  have degenerate: "?n \<le> k \<longrightarrow> start_questionnaire_session m w = (Returns (), m1, w4)"
  proof
    assume "?n \<le> k"
    then have "r = (Returns Exhausted, w4)" and "\<not> k < ?n"
      unfolding assms(7) by (simp_all add: py_range_empty)
    then show "start_questionnaire_session m w = (Returns (), m1, w4)"
      unfolding run by simp
  qed
  have blocks: "fst r = Blocks \<longrightarrow> start_questionnaire_session m w = (Blocks, m1, snd r)"
    unfolding run by (cases r) auto
  show ?thesis using loop stop completed degenerate blocks by blast
qed

text \<open>Rules that run the model on a given terminal and file system.\<close>

lemmas run_defs =
  ask_question_def py_index_def display_text_def answer_loop_line answer_loop_no_input
  answer_loop_interrupt answer_loop_input_error save_answer_def record_line_def str_int_def
  str_nat.simps print_def input_def Let_def py_range_def fmt_opt_def init_manager_def
  get_last_answered_question_def readlines_def last_id_of_lines_def last_id_step_def
  numeral_2_eq_2 upto.simps asked_Nil asked_Cons

theorem C5_session_witness:
  "start_questionnaire_session
       (init_manager\<lparr>current_language := Some ''ingles'', questions := [''1. A?'', ''2. B?'']\<rparr>)
       \<lparr>files = Map.empty, stdin = [Line '''', Line ''a'', Line ''b''], stdout = []\<rparr>
   = (Returns (),
      init_manager\<lparr>current_language := Some ''ingles'', questions := [''1. A?'', ''2. B?''],
                     answers_file_path := Some ''600A_ingles.txt''\<rparr>,
      \<lparr>files = [''600A_ingles.txt'' \<mapsto> Content ''0;1. A?;a\<newline>1;2. B?;b\<newline>''], stdin = [],
        stdout = [StartingNewSession 2, Instructions ''600A_ingles.txt'', PressEnter,
                  QuestionHeader 1 2 ''A?'', YourAnswer, AnswerSaved,
                  QuestionHeader 2 2 ''B?'', YourAnswer, AnswerSaved,
                  QuestionnaireCompleted 2 ''600A_ingles.txt'']\<rparr>)"
proof -
  let ?m = "init_manager\<lparr>current_language := Some ''ingles'', questions := [''1. A?'', ''2. B?'']\<rparr>"
  let ?w = "\<lparr>files = Map.empty, stdin = [Line '''', Line ''a'', Line ''b''], stdout = []\<rparr>"
  let ?p = "''600A_ingles.txt''"
  let ?m1 = "?m\<lparr>answers_file_path := Some ?p\<rparr>"
  let ?w4 = "(print PressEnter
                (print (Instructions ?p)
                   (print (if (0::int) > 0 then ResumingSession 0 (0 + 1)
                           else StartingNewSession (length (questions ?m))) ?w)))
              \<lparr>stdin := [Line ''a'', Line ''b'']\<rparr>"
  let ?r = "ask_all ?m1 (py_range 0 (int (length (questions ?m)))) ?w4"
  have a: "questions ?m \<noteq> []" by simp
  have b: "?p = ''600A_'' @ fmt_opt (current_language ?m) @ ''.txt''"
    by (simp add: fmt_opt_def)
  have c: "get_last_answered_question ?m1 ?w = (Returns 0, ?w)"
    by (simp add: get_last_answered_question_def)
  have d: "stdin ?w = Line '''' # [Line ''a'', Line ''b'']" by simp
  have r: "?r = (Returns Exhausted,
      \<lparr>files = [''600A_ingles.txt'' \<mapsto> Content ''0;1. A?;a\<newline>1;2. B?;b\<newline>''], stdin = [],
        stdout = [StartingNewSession 2, Instructions ''600A_ingles.txt'', PressEnter,
                  QuestionHeader 1 2 ''A?'', YourAnswer, AnswerSaved,
                  QuestionHeader 2 2 ''B?'', YourAnswer, AnswerSaved]\<rparr>)"
    by (simp add: run_defs string_defs)
  have "fst ?r = Returns Exhausted \<and> (0::int) < int (length (questions ?m))"
    unfolding r by simp
  then have "start_questionnaire_session ?m ?w
        = (Returns (), ?m1, print (QuestionnaireCompleted (length (questions ?m)) ?p) (snd ?r))"
    using C5_session_loop_and_completion [OF a b refl c d refl refl] by blast
  then show ?thesis unfolding r by (simp add: print_def)
qed


text \<open>
  The claim as the specification words it fails when the offset is beyond the last question:
  the loop has nothing to run over and ends at once, and no completion notice is printed.
\<close>

theorem C5_degenerate_offset_counterexample:
  "fst (start_questionnaire_session
       (init_manager\<lparr>current_language := Some ''ingles'', questions := [''1. A?'']\<rparr>)
       \<lparr>files = [''600A_ingles.txt'' \<mapsto> Content ''5;x;y\<newline>''],
         stdin = [Line ''''], stdout = []\<rparr>) = Returns ()
   \<and> stdout (snd (snd (start_questionnaire_session
       (init_manager\<lparr>current_language := Some ''ingles'', questions := [''1. A?'']\<rparr>)
       \<lparr>files = [''600A_ingles.txt'' \<mapsto> Content ''5;x;y\<newline>''],
         stdin = [Line ''''], stdout = []\<rparr>)))
     = [ResumingSession 5 6, Instructions ''600A_ingles.txt'', PressEnter]
   \<and> py_range 5 (int (length [''1. A?''])) = []"
  by (simp add: start_questionnaire_session_def run_defs string_defs)






text \<open>
  Claim C4, at a concrete run. A first session answers question 1 and quits on question 2:
  no record is written for index 1 and the notice names question 2 as the place to resume
  from (the completion notice follows it all the same). The next session, started from the
  log so left, asks the question at index 0 again.
\<close>

theorem C4_quit_then_resume_restarts_earlier:
  "stdout (snd (snd (start_questionnaire_session
       (init_manager\<lparr>current_language := Some ''ingles'',
                      questions := [''1. A?'', ''2. B?'', ''3. C?'']\<rparr>)
       \<lparr>files = Map.empty, stdin = [Line '''', Line ''a0'', Line ''QUIT''], stdout = []\<rparr>)))
   = [StartingNewSession 3, Instructions ''600A_ingles.txt'', PressEnter,
      QuestionHeader 1 3 ''A?'', YourAnswer, AnswerSaved,
      QuestionHeader 2 3 ''B?'', YourAnswer, SessionSaved 2,
      QuestionnaireCompleted 3 ''600A_ingles.txt'']
   \<and> files (snd (snd (start_questionnaire_session
       (init_manager\<lparr>current_language := Some ''ingles'',
                      questions := [''1. A?'', ''2. B?'', ''3. C?'']\<rparr>)
       \<lparr>files = Map.empty, stdin = [Line '''', Line ''a0'', Line ''QUIT''], stdout = []\<rparr>)))
       ''600A_ingles.txt''
     = Some (Content ''0;1. A?;a0\<newline>'')
   \<and> asked (stdout (snd (snd (start_questionnaire_session
       (init_manager\<lparr>current_language := Some ''ingles'',
                      questions := [''1. A?'', ''2. B?'', ''3. C?'']\<rparr>)
       \<lparr>files = [''600A_ingles.txt'' \<mapsto> Content ''0;1. A?;a0\<newline>''],
         stdin = [Line ''''], stdout = []\<rparr>)))) = [0]"
  by (simp add: start_questionnaire_session_def run_defs string_defs)

section \<open>Records of the answers file\<close>























end
